theory Spec2Isabelle
  imports Main
begin

section \<open>Event kinds and their hierarchy\<close>

text \<open>
  An event kind is the dynamic class of an \<^verbatim>\<open>itk::EventObject\<close>. Event classes are
  declared with \<^verbatim>\<open>itkEventMacro(classname, super)\<close>, for instance
  \<^verbatim>\<open>itkEventMacro(RegistrationProgressEvent, IRISEvent)\<close> in ImageIOWizardModel.h.
  The declarations are not part of EventBucket.cxx, so the hierarchy is a parameter:
  \<open>bases k\<close> lists the classes that class \<open>k\<close> derives from (its \<^verbatim>\<open>super\<close>, the
  \<^verbatim>\<open>super\<close> of that class, and so on).
\<close>

type_synonym 'k hierarchy = "'k \<Rightarrow> 'k list"

text \<open>
  \<open>k1\<close> is a generalization of \<open>k2\<close> when \<open>k2\<close> derives from \<open>k1\<close>.
\<close>

definition generalization :: "'k hierarchy \<Rightarrow> 'k \<Rightarrow> 'k \<Rightarrow> bool" where
  "generalization bases k1 k2 = (k1 \<in> set (bases k2))"

text \<open>
  \<^verbatim>\<open>self.CheckEvent(e)\<close>. The macro defines it as
  \<^verbatim>\<open>return dynamic_cast<const Self*>(e) != NULL\<close>: the cast succeeds when the dynamic
  class of \<open>e\<close> is \<open>self\<close> or derives from \<open>self\<close>.
\<close>

definition CheckEvent :: "'k hierarchy \<Rightarrow> 'k \<Rightarrow> 'k \<Rightarrow> bool" where
  "CheckEvent bases self e = (e = self \<or> generalization bases self e)"

text \<open>
  The two event classes that the wizard model's header shows, with the one
  derivation it declares. (What \<^verbatim>\<open>IRISEvent\<close> itself derives from is declared elsewhere.)
\<close>

datatype wizard_event = IRISEvent | RegistrationProgressEvent

fun wizard_bases :: "wizard_event hierarchy" where
  "wizard_bases RegistrationProgressEvent = [IRISEvent]"
| "wizard_bases IRISEvent = []"

section \<open>EventBucket\<close>

text \<open>
  \<^verbatim>\<open>BucketEntry\<close> is a pair: \<^verbatim>\<open>first\<close> points to the bucket's own copy of the event
  (made by \<^verbatim>\<open>MakeObject\<close>, which returns a new object of the same class), \<^verbatim>\<open>second\<close> is
  the source pointer, \<open>None\<close> for \<^verbatim>\<open>NULL\<close>. An entry is modelled by the class of the
  stored event and the source.

  \<^verbatim>\<open>m_Bucket\<close> is a container of entries keyed by the two pointers. The first pointer
  of a new entry is freshly allocated, hence differs from the pointers of all entries
  the bucket holds, so \<^verbatim>\<open>insert\<close> always adds an element. The model keeps the entries
  in a list, which can hold the same (kind, source) pair more than once, as the
  container can.
\<close>

type_synonym ('k, 's) BucketEntry = "'k \<times> 's option"

record ('k, 's) EventBucket =
  m_Bucket :: "('k, 's) BucketEntry list"

text \<open>The constructor leaves \<^verbatim>\<open>m_Bucket\<close> empty.\<close>

definition EventBucket_new :: "('k, 's) EventBucket" where
  "EventBucket_new = \<lparr>m_Bucket = []\<rparr>"

text \<open>\<^verbatim>\<open>Clear\<close> deletes the stored event objects and empties the container.\<close>

definition Clear :: "('k, 's) EventBucket \<Rightarrow> ('k, 's) EventBucket" where
  "Clear eb = eb\<lparr>m_Bucket := []\<rparr>"

text \<open>The linear search of \<^verbatim>\<open>HasEvent\<close>: the loop over the entries.\<close>

fun HasEvent_loop ::
  "'k hierarchy \<Rightarrow> ('k, 's) BucketEntry list \<Rightarrow> 'k \<Rightarrow> 's option \<Rightarrow> bool" where
  "HasEvent_loop bases [] evt source = False"
| "HasEvent_loop bases (entry # rest) evt source =
     (if CheckEvent bases evt (fst entry) \<and> (source = None \<or> source = snd entry)
      then True
      else HasEvent_loop bases rest evt source)"

definition HasEvent ::
  "'k hierarchy \<Rightarrow> ('k, 's) EventBucket \<Rightarrow> 'k \<Rightarrow> 's option \<Rightarrow> bool" where
  "HasEvent bases eb evt source = HasEvent_loop bases (m_Bucket eb) evt source"

definition IsEmpty :: "('k, 's) EventBucket \<Rightarrow> bool" where
  "IsEmpty eb = (length (m_Bucket eb) = 0)"

definition PutEvent ::
  "'k hierarchy \<Rightarrow> ('k, 's) EventBucket \<Rightarrow> 'k \<Rightarrow> 's option \<Rightarrow> ('k, 's) EventBucket" where
  "PutEvent bases eb evt source =
     (if \<not> HasEvent bases eb evt source
      then eb\<lparr>m_Bucket := m_Bucket eb @ [(evt, source)]\<rparr>
      else eb)"

text \<open>
  Calls of the public member functions, and the bucket each call leaves behind.
  \<^verbatim>\<open>HasEvent\<close> and \<^verbatim>\<open>IsEmpty\<close> are \<^verbatim>\<open>const\<close> member functions whose bodies assign
  nothing.
\<close>

datatype ('k, 's) call =
    PutEventCall 'k "'s option"
  | HasEventCall 'k "'s option"
  | IsEmptyCall
  | ClearCall

fun exec ::
  "'k hierarchy \<Rightarrow> ('k, 's) EventBucket \<Rightarrow> ('k, 's) call \<Rightarrow> ('k, 's) EventBucket" where
  "exec bases eb (PutEventCall evt source) = PutEvent bases eb evt source"
| "exec bases eb (HasEventCall evt source) = eb"
| "exec bases eb IsEmptyCall = eb"
| "exec bases eb ClearCall = Clear eb"

fun run ::
  "'k hierarchy \<Rightarrow> ('k, 's) EventBucket \<Rightarrow> ('k, 's) call list \<Rightarrow> ('k, 's) EventBucket" where
  "run bases eb [] = eb"
| "run bases eb (c # cs) = run bases (exec bases eb c) cs"

text \<open>
  The matching rule as the specification words it: the stored kind is equal to or a
  generalization of the queried kind, and the queried source is "any" or equals the
  stored source.
\<close>

fun HasEvent_spec_loop ::
  "'k hierarchy \<Rightarrow> ('k, 's) BucketEntry list \<Rightarrow> 'k \<Rightarrow> 's option \<Rightarrow> bool" where
  "HasEvent_spec_loop bases [] evt source = False"
| "HasEvent_spec_loop bases (entry # rest) evt source =
     (((fst entry = evt \<or> generalization bases (fst entry) evt)
        \<and> (source = None \<or> source = snd entry))
      \<or> HasEvent_spec_loop bases rest evt source)"

definition HasEvent_spec ::
  "'k hierarchy \<Rightarrow> ('k, 's) EventBucket \<Rightarrow> 'k \<Rightarrow> 's option \<Rightarrow> bool" where
  "HasEvent_spec bases eb evt source = HasEvent_spec_loop bases (m_Bucket eb) evt source"

text \<open>
  The invariant of the data model: no (kind, source) pair is stored twice.
\<close>

definition bucket_inv :: "('k, 's) EventBucket \<Rightarrow> bool" where
  "bucket_inv eb = distinct (m_Bucket eb)"

text \<open>
  Whether, along a sequence of calls started in bucket \<open>eb\<close>, some \<^verbatim>\<open>PutEvent\<close> whose
  pair the bucket did not match at that moment has happened after the last \<^verbatim>\<open>Clear\<close>;
  \<open>seen\<close> says whether one had happened before the sequence.
\<close>

fun unmatched_put_since_clear ::
  "'k hierarchy \<Rightarrow> ('k, 's) EventBucket \<Rightarrow> bool \<Rightarrow> ('k, 's) call list \<Rightarrow> bool" where
  "unmatched_put_since_clear bases eb seen [] = seen"
| "unmatched_put_since_clear bases eb seen (PutEventCall evt source # cs) =
     unmatched_put_since_clear bases (PutEvent bases eb evt source)
       (seen \<or> \<not> HasEvent bases eb evt source) cs"
| "unmatched_put_since_clear bases eb seen (ClearCall # cs) =
     unmatched_put_since_clear bases (Clear eb) False cs"
| "unmatched_put_since_clear bases eb seen (HasEventCall evt source # cs) =
     unmatched_put_since_clear bases eb seen cs"
| "unmatched_put_since_clear bases eb seen (IsEmptyCall # cs) =
     unmatched_put_since_clear bases eb seen cs"

section \<open>ImageIOWizardModel\<close>

text \<open>
  ImageIOWizardModel.h declares the wizard model; the bodies of its member functions
  are in ImageIOWizardModel.cxx, which is not among the sources. The declarations
  and their comments are taken from the header, the behaviour of the bodies from
  the specification.
\<close>

datatype Mode = LOAD | SAVE

text \<open>
  \<^verbatim>\<open>FileFormat\<close> is the enumeration \<^verbatim>\<open>GuidedNativeImageIO::FileFormat\<close>; its value
  \<^verbatim>\<open>FORMAT_COUNT\<close> stands for "format not determined" (comment of \<^verbatim>\<open>GuessFileFormat\<close>).
  The formats proper are a type parameter.
\<close>

datatype 'f FileFormat = FORMAT 'f | FORMAT_COUNT

text \<open>The error taxonomy of the specification (section 7).\<close>

datatype error =
    DecodeError string
  | EncodeError string
  | ValidationError
  | DirectoryReadError
  | IndexOutOfRange
  | UninitializedModelError
  | RegistrationPreconditionError

text \<open>
  Modelled from the spec: the external collaborators of section 6, which the header
  only names (\<^verbatim>\<open>GuidedNativeImageIO\<close>, \<^verbatim>\<open>Registry\<close>, the delegates). \<open>FileExists\<close> is
  the file system, \<open>Hint\<close> the auxiliary hints store (\<^verbatim>\<open>Get(path) -> format | absent\<close>),
  \<open>SniffMagicNumber\<close> and \<open>Decode\<close> the guided-I/O service, \<open>MatchExtension\<close> the match
  of the file name against the formats' registered extensions, \<open>SaveDefault\<close> the save
  delegate's declared default format, \<open>MaterializeSeries\<close> the DICOM service and
  \<open>CheckImageValidity\<close> the delegate's validity check, which answers with the
  warning entry to record when the image is not valid. A decode that succeeds
  yields the image and its non-fatal warnings, one that fails the diagnostic text.
\<close>

record ('f, 'img, 'w, 'd) services =
  FileExists :: "string \<Rightarrow> bool"
  Hint :: "string \<Rightarrow> 'f option"
  SniffMagicNumber :: "string \<Rightarrow> 'f FileFormat"
  MatchExtension :: "string \<Rightarrow> 'f FileFormat"
  SaveDefault :: "'f FileFormat"
  Decode :: "string \<Rightarrow> 'f FileFormat \<Rightarrow> string + 'img \<times> 'w list"
  MaterializeSeries :: "'d \<Rightarrow> string + 'img \<times> 'w list"
  CheckImageValidity :: "'img \<Rightarrow> 'w option"

text \<open>
  The members of the class that the claims read: \<^verbatim>\<open>m_Mode\<close>, \<^verbatim>\<open>m_Warnings\<close>,
  \<^verbatim>\<open>m_DicomContents\<close>, \<^verbatim>\<open>m_LoadedImage\<close> (\<open>None\<close> for the null pointer) and the format
  behind \<^verbatim>\<open>SetSelectedFormat\<close> / \<^verbatim>\<open>GetSelectedFormat\<close>.
\<close>

record ('f, 'img, 'w, 'd) ImageIOWizardModel =
  m_Mode :: Mode
  m_Warnings :: "'w list"
  m_DicomContents :: "'d list"
  m_SelectedFormat :: "'f FileFormat"
  m_LoadedImage :: "'img option"

text \<open>
  Modelled from the spec: the body of \<^verbatim>\<open>GuessFileFormat\<close>. The header's comment fixes
  the first test (in load mode a file that does not exist gives \<^verbatim>\<open>FORMAT_COUNT\<close>) and
  the order registry, magic number, extension; section 4.2 of the specification adds
  that the existence of the file is computed once up front and returned, that the
  magic number is read in load mode only, and the fall-back to the save delegate's
  default format in save mode. The function has no failing outcome: detection that
  finds nothing returns \<^verbatim>\<open>FORMAT_COUNT\<close>.
\<close>

definition GuessFileFormat ::
  "('f, 'img, 'w, 'd) services \<Rightarrow> Mode \<Rightarrow> string \<Rightarrow> 'f FileFormat \<times> bool" where
  "GuessFileFormat io mode fname =
     (let fileExists = FileExists io fname in
      if mode = LOAD \<and> \<not> fileExists then (FORMAT_COUNT, fileExists)
      else
        (case Hint io fname of
           Some fmt \<Rightarrow> (FORMAT fmt, fileExists)
         | None \<Rightarrow>
            (case (if mode = LOAD \<and> fileExists then SniffMagicNumber io fname
                   else FORMAT_COUNT) of
               FORMAT fmt \<Rightarrow> (FORMAT fmt, fileExists)
             | FORMAT_COUNT \<Rightarrow>
                (case MatchExtension io fname of
                   FORMAT fmt \<Rightarrow> (FORMAT fmt, fileExists)
                 | FORMAT_COUNT \<Rightarrow>
                    (if mode = SAVE then SaveDefault io else FORMAT_COUNT, fileExists)))))"

text \<open>
  Modelled from the spec: \<^verbatim>\<open>IsImageLoaded\<close> (body not in the sources). It is true
  exactly when a load has completed and no \<^verbatim>\<open>Reset\<close> happened since, that is, when the
  loaded-image handle is set.
\<close>

definition IsImageLoaded :: "('f, 'img, 'w, 'd) ImageIOWizardModel \<Rightarrow> bool" where
  "IsImageLoaded st = (m_LoadedImage st \<noteq> None)"

text \<open>
  Modelled from the spec: \<^verbatim>\<open>Reset\<close> (body not in the sources) clears the warnings,
  the DICOM contents, the selected format and the loaded-image handle, and leaves
  the mode alone.
\<close>

definition Reset ::
  "('f, 'img, 'w, 'd) ImageIOWizardModel \<Rightarrow> ('f, 'img, 'w, 'd) ImageIOWizardModel" where
  "Reset st =
     st\<lparr>m_Warnings := [], m_DicomContents := [], m_SelectedFormat := FORMAT_COUNT,
        m_LoadedImage := None\<rparr>"

text \<open>
  Modelled from the spec: the load pipeline shared by \<^verbatim>\<open>LoadImage\<close> and
  \<^verbatim>\<open>LoadDicomSeries\<close> (bodies not in the sources), section 4.6. A decode failure fails
  with \<open>DecodeError\<close> and the diagnostic; after a decode that succeeded the non-fatal
  warnings are appended; a validation failure appends its entry, discards the image
  and fails with \<open>ValidationError\<close>; otherwise the image becomes the loaded image.
\<close>

definition load_pipeline ::
  "('f, 'img, 'w, 'd) services \<Rightarrow> ('f, 'img, 'w, 'd) ImageIOWizardModel \<Rightarrow>
   string + 'img \<times> 'w list \<Rightarrow> (error + unit) \<times> ('f, 'img, 'w, 'd) ImageIOWizardModel" where
  "load_pipeline io st decoded =
     (case decoded of
        Inl diagnostic \<Rightarrow> (Inl (DecodeError diagnostic), st)
      | Inr (img, nonfatal) \<Rightarrow>
         (case CheckImageValidity io img of
            Some entry \<Rightarrow>
              (Inl ValidationError, st\<lparr>m_Warnings := m_Warnings st @ nonfatal @ [entry]\<rparr>)
          | None \<Rightarrow>
              (Inr (), st\<lparr>m_Warnings := m_Warnings st @ nonfatal,
                          m_LoadedImage := Some img\<rparr>)))"

text \<open>
  Modelled from the spec: \<^verbatim>\<open>LoadImage\<close> (body not in the sources) runs the format
  detection, has the guided-I/O service decode the file in that format and forwards
  the outcome to the pipeline. What the service does with a DICOM path is part of
  \<open>Decode\<close>.
\<close>

definition LoadImage ::
  "('f, 'img, 'w, 'd) services \<Rightarrow> ('f, 'img, 'w, 'd) ImageIOWizardModel \<Rightarrow> string \<Rightarrow>
   (error + unit) \<times> ('f, 'img, 'w, 'd) ImageIOWizardModel" where
  "LoadImage io st filename =
     load_pipeline io st
       (Decode io filename (fst (GuessFileFormat io (m_Mode st) filename)))"

text \<open>
  The warnings that one call of \<^verbatim>\<open>LoadImage\<close> itself gives rise to: the non-fatal
  warnings of the decode, then the entry of a failed validation.
\<close>

definition produced_warnings ::
  "('f, 'img, 'w, 'd) services \<Rightarrow> Mode \<Rightarrow> string \<Rightarrow> 'w list" where
  "produced_warnings io mode filename =
     (case Decode io filename (fst (GuessFileFormat io mode filename)) of
        Inl diagnostic \<Rightarrow> []
      | Inr (img, nonfatal) \<Rightarrow>
         nonfatal @ (case CheckImageValidity io img of Some entry \<Rightarrow> [entry] | None \<Rightarrow> []))"

text \<open>
  Modelled from the spec: \<^verbatim>\<open>LoadDicomSeries\<close> (body not in the sources), section 4.4:
  an index outside \<open>0 \<le> index < series_count\<close> fails with \<open>IndexOutOfRange\<close>; otherwise
  the series' descriptor goes to the service and the outcome through the load
  pipeline. The index is the header's \<^verbatim>\<open>int series\<close>.
\<close>

definition LoadDicomSeries ::
  "('f, 'img, 'w, 'd) services \<Rightarrow> ('f, 'img, 'w, 'd) ImageIOWizardModel \<Rightarrow> string \<Rightarrow> int \<Rightarrow>
   (error + unit) \<times> ('f, 'img, 'w, 'd) ImageIOWizardModel" where
  "LoadDicomSeries io st filename series =
     (if series < 0 \<or> int (length (m_DicomContents st)) \<le> series
      then (Inl IndexOutOfRange, st)
      else load_pipeline io st (MaterializeSeries io (m_DicomContents st ! nat series)))"

text \<open>
  A small installation for the examples: the formats NIfTI and DICOM; one file on
  disk, \<^verbatim>\<open>scan.nii\<close>, hinted as DICOM although its extension says NIfTI; a hint for
  \<^verbatim>\<open>gone.nii\<close>, which is no longer on disk; a decoder that fails on everything; a
  DICOM service that knows series 0 and 1.
\<close>

datatype snap_format = NIFTI | DICOM

definition example_io :: "(snap_format, nat, string, nat) services" where
  "example_io =
     \<lparr>FileExists = (\<lambda>p. p = ''scan.nii''),
      Hint = (\<lambda>p. if p = ''scan.nii'' \<or> p = ''gone.nii'' then Some DICOM else None),
      SniffMagicNumber = (\<lambda>p. FORMAT NIFTI),
      MatchExtension = (\<lambda>p. FORMAT NIFTI),
      SaveDefault = FORMAT NIFTI,
      Decode = (\<lambda>p fmt. Inl ''cannot read''),
      MaterializeSeries = (\<lambda>d. if d < 2 then Inr (d, []) else Inl ''no such series''),
      CheckImageValidity = (\<lambda>img. None)\<rparr>"

definition example_model :: "(snap_format, nat, string, nat) ImageIOWizardModel" where
  "example_model =
     \<lparr>m_Mode = LOAD, m_Warnings = [''unusual spacing''], m_DicomContents = [0, 1],
      m_SelectedFormat = FORMAT NIFTI, m_LoadedImage = Some 7\<rparr>"

section \<open>Properties of the EventBucket\<close>

subsection \<open>The search loop\<close>

lemma HasEvent_loop_iff:
  "HasEvent_loop bases es evt source =
     (\<exists>entry \<in> set es.
        CheckEvent bases evt (fst entry) \<and> (source = None \<or> source = snd entry))"
  by (induction es) auto

text \<open>
  The answer of the search depends on the entries only, not on the order in which
  the container hands them out.
\<close>

lemma HasEvent_order_irrelevant:
  "set (m_Bucket a) = set (m_Bucket b) \<Longrightarrow> HasEvent bases a evt source = HasEvent bases b evt source"
  by (simp add: HasEvent_def HasEvent_loop_iff)

lemma HasEvent_loop_append:
  "HasEvent_loop bases (xs @ ys) evt source =
     (HasEvent_loop bases xs evt source \<or> HasEvent_loop bases ys evt source)"
  by (induction xs) auto

lemma HasEvent_loop_self:
  "(evt, source) \<in> set es \<Longrightarrow> HasEvent_loop bases es evt source"
  by (induction es) (auto simp: CheckEvent_def)

lemma HasEvent_PutEvent: "HasEvent bases (PutEvent bases eb evt source) evt source"
  by (simp add: PutEvent_def HasEvent_def HasEvent_loop_append CheckEvent_def)

subsection \<open>Insertion\<close>

lemma PutEvent_twice:
  "PutEvent bases (PutEvent bases eb evt source) evt source = PutEvent bases eb evt source"
  using HasEvent_PutEvent [of bases eb evt source]
  by (simp add: PutEvent_def [of bases "PutEvent bases eb evt source"])

lemma PutEvent_length:
  "length (m_Bucket (PutEvent bases eb evt source)) \<le> Suc (length (m_Bucket eb))"
  by (simp add: PutEvent_def)

lemma PutEvent_keeps: "\<exists>ys. m_Bucket (PutEvent bases eb evt source) = m_Bucket eb @ ys"
  by (simp add: PutEvent_def)

lemma exec_keeps:
  "c \<noteq> ClearCall \<Longrightarrow> \<exists>ys. m_Bucket (exec bases eb c) = m_Bucket eb @ ys"
  by (cases c) (simp_all add: PutEvent_keeps)

lemma run_keeps:
  "ClearCall \<notin> set cs \<Longrightarrow> \<exists>ys. m_Bucket (run bases eb cs) = m_Bucket eb @ ys"
proof (induction cs arbitrary: eb)
  case Nil
  then show ?case by simp
next
  case (Cons c cs)
  then obtain ys where first: "m_Bucket (exec bases eb c) = m_Bucket eb @ ys"
    using exec_keeps [of c bases eb] by auto
  from Cons obtain zs where
    "m_Bucket (run bases (exec bases eb c) cs) = m_Bucket (exec bases eb c) @ zs"
    by fastforce
  with first show ?case by simp
qed

subsection \<open>The invariant\<close>

lemma bucket_inv_new: "bucket_inv EventBucket_new"
  by (simp add: bucket_inv_def EventBucket_new_def)

lemma bucket_inv_PutEvent: "bucket_inv eb \<Longrightarrow> bucket_inv (PutEvent bases eb evt source)"
  by (auto simp: bucket_inv_def PutEvent_def HasEvent_def dest: HasEvent_loop_self)

lemma bucket_inv_exec: "bucket_inv eb \<Longrightarrow> bucket_inv (exec bases eb c)"
  by (cases c) (simp_all add: bucket_inv_PutEvent, simp add: bucket_inv_def Clear_def)

lemma bucket_inv_run: "bucket_inv eb \<Longrightarrow> bucket_inv (run bases eb cs)"
  by (induction cs arbitrary: eb) (simp_all add: bucket_inv_exec)

lemma distinct_count_list: "distinct xs \<Longrightarrow> count_list xs x \<le> 1"
  by (induction xs) auto

lemma bucket_inv_count: "bucket_inv eb \<Longrightarrow> count_list (m_Bucket eb) entry \<le> 1"
  unfolding bucket_inv_def by (rule distinct_count_list)

subsection \<open>Emptiness along a sequence of calls\<close>

lemma unmatched_put_iff_nonempty:
  "seen = (m_Bucket eb \<noteq> []) \<Longrightarrow>
   unmatched_put_since_clear bases eb seen cs = (m_Bucket (run bases eb cs) \<noteq> [])"
proof (induction bases eb seen cs rule: unmatched_put_since_clear.induct)
  case (2 bases eb seen evt source cs)
  have "(seen \<or> \<not> HasEvent bases eb evt source)
          = (m_Bucket (PutEvent bases eb evt source) \<noteq> [])"
    using 2(2) by (auto simp: PutEvent_def HasEvent_def)
  from 2(1) [OF this] show ?case by simp
next
  case (3 bases eb seen cs)
  have "False = (m_Bucket (Clear eb) \<noteq> [])" by (simp add: Clear_def)
  from 3(1) [OF this] show ?case by simp
qed simp_all

subsection \<open>The claims about the bucket\<close>

text \<open>
  C1, as the code has it: \<^verbatim>\<open>HasEvent(k, s)\<close> returns true if and only if some stored
  entry \<open>(k', s')\<close> has a kind \<open>k'\<close> that is equal to the queried kind \<open>k\<close> or a
  specialization of it (the queried kind is a generalization of the stored kind),
  and the queried source \<open>s\<close> is null ("any") or equals the stored source \<open>s'\<close>.
\<close>

theorem HasEvent_matches_specializations:
  "HasEvent bases eb k s =
     (\<exists>entry \<in> set (m_Bucket eb).
        (fst entry = k \<or> generalization bases k (fst entry))
        \<and> (s = None \<or> s = snd entry))"
  by (simp add: HasEvent_def HasEvent_loop_iff CheckEvent_def)

theorem HasEvent_matches_specializations_witness:
  "HasEvent wizard_bases \<lparr>m_Bucket = [(RegistrationProgressEvent, Some (1::nat))]\<rparr>
     IRISEvent None
   \<and> \<not> HasEvent wizard_bases \<lparr>m_Bucket = [(RegistrationProgressEvent, Some (1::nat))]\<rparr>
     IRISEvent (Some 2)"
  using HasEvent_matches_specializations
      [of wizard_bases "\<lparr>m_Bucket = [(RegistrationProgressEvent, Some (1::nat))]\<rparr>"
        IRISEvent None]
    HasEvent_matches_specializations
      [of wizard_bases "\<lparr>m_Bucket = [(RegistrationProgressEvent, Some (1::nat))]\<rparr>"
        IRISEvent "Some 2"]
  by (simp add: generalization_def)

text \<open>
  C1 as the specification states it, with the stored kind the more general one, fails
  in both directions. A bucket holding a \<^verbatim>\<open>RegistrationProgressEvent\<close> answers a query
  for \<^verbatim>\<open>IRISEvent\<close> with true, although no stored kind is equal to or more general than
  \<^verbatim>\<open>IRISEvent\<close>; a bucket holding an \<^verbatim>\<open>IRISEvent\<close> answers a query for
  \<^verbatim>\<open>RegistrationProgressEvent\<close> with false, although the stored kind is more general.
\<close>

theorem HasEvent_stored_generalization_counterexample:
  "HasEvent wizard_bases
      (PutEvent wizard_bases EventBucket_new RegistrationProgressEvent (Some (1::nat)))
      IRISEvent (Some 1)
   \<and> \<not> HasEvent_spec wizard_bases
      (PutEvent wizard_bases EventBucket_new RegistrationProgressEvent (Some (1::nat)))
      IRISEvent (Some 1)
   \<and> \<not> HasEvent wizard_bases
      (PutEvent wizard_bases EventBucket_new IRISEvent (Some (1::nat)))
      RegistrationProgressEvent (Some 1)
   \<and> HasEvent_spec wizard_bases
      (PutEvent wizard_bases EventBucket_new IRISEvent (Some (1::nat)))
      RegistrationProgressEvent (Some 1)"
  by (simp add: HasEvent_def HasEvent_spec_def PutEvent_def EventBucket_new_def
      CheckEvent_def generalization_def)

text \<open>
  C2: for kinds \<open>k1\<close>, \<open>k2\<close> with \<open>k1\<close> a generalization of \<open>k2\<close> and any source \<open>s\<close>
  (null included): after \<^verbatim>\<open>PutEvent(k2, s)\<close> on an empty bucket, \<^verbatim>\<open>HasEvent(k1, s)\<close>
  is true, and \<^verbatim>\<open>HasEvent(k1, other)\<close> for a non-null source \<open>other\<close> is true only if
  \<open>other\<close> is \<open>s\<close>.
\<close>

theorem PutEvent_found_by_generalization:
  "generalization bases k1 k2 \<Longrightarrow>
     HasEvent bases (PutEvent bases EventBucket_new k2 s) k1 s
     \<and> (\<forall>other. HasEvent bases (PutEvent bases EventBucket_new k2 s) k1 (Some other)
          \<longrightarrow> Some other = s)"
  by (simp add: HasEvent_def PutEvent_def EventBucket_new_def CheckEvent_def)

theorem PutEvent_found_by_generalization_witness:
  "generalization wizard_bases IRISEvent RegistrationProgressEvent
   \<and> HasEvent wizard_bases
       (PutEvent wizard_bases EventBucket_new RegistrationProgressEvent (Some (1::nat)))
       IRISEvent (Some 1)
   \<and> \<not> HasEvent wizard_bases
       (PutEvent wizard_bases EventBucket_new RegistrationProgressEvent (Some (1::nat)))
       IRISEvent (Some 2)"
proof -
  have g: "generalization wizard_bases IRISEvent RegistrationProgressEvent"
    by (simp add: generalization_def)
  from PutEvent_found_by_generalization [OF g, of "Some (1::nat)"] g
  show ?thesis by auto
qed

text \<open>
  C3: no (kind, source) pair is ever stored more than once. The invariant holds for
  the new bucket and for every bucket reached by calls, and each of \<^verbatim>\<open>PutEvent\<close>,
  \<^verbatim>\<open>HasEvent\<close>, \<^verbatim>\<open>IsEmpty\<close> and \<^verbatim>\<open>Clear\<close> preserves it. \<^verbatim>\<open>PutEvent\<close> is idempotent:
  the second of two calls with the same pair changes nothing, so the two calls add
  at most one entry and leave at most one entry for the pair.
\<close>

theorem PutEvent_idempotent_unique_entries:
  "bucket_inv (EventBucket_new :: ('k, 's) EventBucket)
   \<and> bucket_inv (run bases (EventBucket_new :: ('k, 's) EventBucket) cs)
   \<and> (bucket_inv eb \<longrightarrow>
        bucket_inv (exec bases eb c)
        \<and> count_list (m_Bucket eb) (k, s) \<le> 1
        \<and> count_list (m_Bucket (PutEvent bases (PutEvent bases eb k s) k s)) (k, s) \<le> 1)
   \<and> PutEvent bases (PutEvent bases eb k s) k s = PutEvent bases eb k s
   \<and> length (m_Bucket (PutEvent bases (PutEvent bases eb k s) k s))
        \<le> Suc (length (m_Bucket eb))"
proof (intro conjI impI)
  show "bucket_inv (EventBucket_new :: ('k, 's) EventBucket)"
    by (rule bucket_inv_new)
  show "bucket_inv (run bases (EventBucket_new :: ('k, 's) EventBucket) cs)"
    by (rule bucket_inv_run [OF bucket_inv_new])
  show "bucket_inv (exec bases eb c)" if "bucket_inv eb"
    using that by (rule bucket_inv_exec)
  show "count_list (m_Bucket eb) (k, s) \<le> 1" if "bucket_inv eb"
    using that by (rule bucket_inv_count)
  show "count_list (m_Bucket (PutEvent bases (PutEvent bases eb k s) k s)) (k, s) \<le> 1"
    if "bucket_inv eb"
    using that by (intro bucket_inv_count bucket_inv_PutEvent)
  show "PutEvent bases (PutEvent bases eb k s) k s = PutEvent bases eb k s"
    by (rule PutEvent_twice)
  show "length (m_Bucket (PutEvent bases (PutEvent bases eb k s) k s))
      \<le> Suc (length (m_Bucket eb))"
    by (simp only: PutEvent_twice PutEvent_length)
qed

theorem PutEvent_idempotent_unique_entries_witness:
  "bucket_inv \<lparr>m_Bucket = [(RegistrationProgressEvent, Some (1::nat))]\<rparr>
   \<and> bucket_inv (exec wizard_bases \<lparr>m_Bucket = [(RegistrationProgressEvent, Some (1::nat))]\<rparr>
        (PutEventCall IRISEvent None))
   \<and> count_list
        (m_Bucket (PutEvent wizard_bases
           (PutEvent wizard_bases \<lparr>m_Bucket = [(RegistrationProgressEvent, Some (1::nat))]\<rparr>
              IRISEvent (Some 2))
           IRISEvent (Some 2)))
        (IRISEvent, Some 2) \<le> 1"
proof -
  have inv: "bucket_inv \<lparr>m_Bucket = [(RegistrationProgressEvent, Some (1::nat))]\<rparr>"
    by (simp add: bucket_inv_def)
  from PutEvent_idempotent_unique_entries
    [of wizard_bases "[]" "\<lparr>m_Bucket = [(RegistrationProgressEvent, Some (1::nat))]\<rparr>"
      "PutEventCall IRISEvent None" IRISEvent "Some 2"] inv
  show ?thesis by blast
qed

text \<open>
  C8: right after \<^verbatim>\<open>Clear()\<close>, \<^verbatim>\<open>IsEmpty()\<close> is true; and after any sequence of calls
  on a new bucket, \<^verbatim>\<open>IsEmpty()\<close> is true if and only if no \<^verbatim>\<open>PutEvent\<close> call with a pair
  that the bucket did not match at that moment has happened since the last \<^verbatim>\<open>Clear\<close>
  (or since construction).
\<close>

theorem IsEmpty_iff_no_unmatched_put:
  "IsEmpty (Clear eb)
   \<and> IsEmpty (run bases EventBucket_new cs)
       = (\<not> unmatched_put_since_clear bases EventBucket_new False cs)"
  using unmatched_put_iff_nonempty [of False EventBucket_new bases cs]
  by (simp add: IsEmpty_def Clear_def EventBucket_new_def)

text \<open>
  C9: the null ("any") source is asymmetric. For a kind \<open>k\<close> and a non-null source
  \<open>s\<close>: after \<^verbatim>\<open>PutEvent(k, s)\<close> on an empty bucket \<^verbatim>\<open>HasEvent(k, NULL)\<close> is true, and
  \<^verbatim>\<open>PutEvent(k, NULL)\<close> then leaves the bucket as it is, holding \<open>(k, s)\<close> alone; after
  \<^verbatim>\<open>PutEvent(k, NULL)\<close> on an empty bucket \<^verbatim>\<open>HasEvent(k, s)\<close> is false, and
  \<^verbatim>\<open>PutEvent(k, s)\<close> then adds a second entry. The two orders of the two calls end in
  different buckets.
\<close>

theorem PutEvent_any_source_order:
  "HasEvent bases (PutEvent bases EventBucket_new k (Some s)) k None
   \<and> PutEvent bases (PutEvent bases EventBucket_new k (Some s)) k None
       = PutEvent bases EventBucket_new k (Some s)
   \<and> m_Bucket (PutEvent bases (PutEvent bases EventBucket_new k (Some s)) k None)
       = [(k, Some s)]
   \<and> \<not> HasEvent bases (PutEvent bases EventBucket_new k None) k (Some s)
   \<and> m_Bucket (PutEvent bases (PutEvent bases EventBucket_new k None) k (Some s))
       = [(k, None), (k, Some s)]
   \<and> set (m_Bucket (run bases EventBucket_new [PutEventCall k (Some s), PutEventCall k None]))
       \<noteq> set (m_Bucket (run bases EventBucket_new [PutEventCall k None, PutEventCall k (Some s)]))"
  by (simp add: HasEvent_def PutEvent_def EventBucket_new_def CheckEvent_def)

text \<open>
  C10: \<^verbatim>\<open>HasEvent\<close> and \<^verbatim>\<open>IsEmpty\<close> leave the bucket as it is; \<^verbatim>\<open>PutEvent\<close> keeps every
  entry in place and at most appends one; over any sequence of calls without
  \<^verbatim>\<open>Clear\<close> the stored entries only grow and the size never decreases.
\<close>

theorem bucket_grows_between_clears:
  "exec bases eb (HasEventCall k s) = eb
   \<and> exec bases eb IsEmptyCall = eb
   \<and> (\<exists>ys. m_Bucket (PutEvent bases eb k s) = m_Bucket eb @ ys)
   \<and> (ClearCall \<notin> set cs \<longrightarrow>
        (\<exists>ys. m_Bucket (run bases eb cs) = m_Bucket eb @ ys)
        \<and> set (m_Bucket eb) \<subseteq> set (m_Bucket (run bases eb cs))
        \<and> length (m_Bucket eb) \<le> length (m_Bucket (run bases eb cs)))"
proof -
  have "set (m_Bucket eb) \<subseteq> set (m_Bucket (run bases eb cs))
      \<and> length (m_Bucket eb) \<le> length (m_Bucket (run bases eb cs))"
    if "ClearCall \<notin> set cs"
    using run_keeps [OF that, of bases eb] by auto
  then show ?thesis
    using PutEvent_keeps [of bases eb k s] run_keeps [of cs bases eb] by simp
qed

theorem bucket_grows_between_clears_witness:
  "ClearCall \<notin> set [PutEventCall IRISEvent None, HasEventCall IRISEvent (Some (1::nat)), IsEmptyCall]
   \<and> set (m_Bucket \<lparr>m_Bucket = [(RegistrationProgressEvent, Some (1::nat))]\<rparr>)
       \<subseteq> set (m_Bucket (run wizard_bases \<lparr>m_Bucket = [(RegistrationProgressEvent, Some (1::nat))]\<rparr>
            [PutEventCall IRISEvent None, HasEventCall IRISEvent (Some (1::nat)), IsEmptyCall]))
   \<and> length (m_Bucket \<lparr>m_Bucket = [(RegistrationProgressEvent, Some (1::nat))]\<rparr>)
       \<le> length (m_Bucket (run wizard_bases \<lparr>m_Bucket = [(RegistrationProgressEvent, Some (1::nat))]\<rparr>
            [PutEventCall IRISEvent None, HasEventCall IRISEvent (Some (1::nat)), IsEmptyCall]))"
proof -
  have none: "ClearCall \<notin> set [PutEventCall IRISEvent None,
      HasEventCall IRISEvent (Some (1::nat)), IsEmptyCall]"
    by simp
  from bucket_grows_between_clears
    [of wizard_bases "\<lparr>m_Bucket = [(RegistrationProgressEvent, Some (1::nat))]\<rparr>"
      IRISEvent None
      "[PutEventCall IRISEvent None, HasEventCall IRISEvent (Some (1::nat)), IsEmptyCall]"]
    none
  show ?thesis by blast
qed

section \<open>Properties of the wizard model\<close>

subsection \<open>The load pipeline\<close>

lemma load_pipeline_failure_frame:
  "fst (load_pipeline io st decoded) = Inl e \<Longrightarrow>
     m_LoadedImage (snd (load_pipeline io st decoded)) = m_LoadedImage st
     \<and> m_Mode (snd (load_pipeline io st decoded)) = m_Mode st
     \<and> m_DicomContents (snd (load_pipeline io st decoded)) = m_DicomContents st
     \<and> m_SelectedFormat (snd (load_pipeline io st decoded)) = m_SelectedFormat st"
  by (auto simp: load_pipeline_def split: sum.splits option.splits prod.splits)

lemma load_pipeline_never_IndexOutOfRange:
  "fst (load_pipeline io st decoded) \<noteq> Inl IndexOutOfRange"
  by (auto simp: load_pipeline_def split: sum.splits option.splits prod.splits)

lemma LoadImage_warnings:
  "m_Warnings (snd (LoadImage io st filename))
     = m_Warnings st @ produced_warnings io (m_Mode st) filename"
  by (auto simp: LoadImage_def load_pipeline_def produced_warnings_def
      split: sum.splits option.splits prod.splits)

lemma Reset_fields:
  "m_Warnings (Reset st) = [] \<and> m_LoadedImage (Reset st) = None \<and> m_Mode (Reset st) = m_Mode st"
  by (simp add: Reset_def)

subsection \<open>The claims about the wizard model\<close>

text \<open>
  C4, amended: a failed \<^verbatim>\<open>LoadImage\<close> (decode or validation failure) leaves the
  loaded-image handle untouched, so \<^verbatim>\<open>IsImageLoaded()\<close> keeps the value it had before
  the call: it stays false where no image was loaded, in particular after \<^verbatim>\<open>Reset\<close>.
  Mode, DICOM contents and selected format are unchanged, and the warnings list is
  the old list followed by the warnings of this call, so that after \<^verbatim>\<open>Reset\<close> it holds
  the warnings of this call and nothing else.
\<close>

theorem LoadImage_failure_keeps_state:
  "(fst (LoadImage io st filename) = Inl e \<longrightarrow>
      m_LoadedImage (snd (LoadImage io st filename)) = m_LoadedImage st
      \<and> IsImageLoaded (snd (LoadImage io st filename)) = IsImageLoaded st
      \<and> m_Mode (snd (LoadImage io st filename)) = m_Mode st
      \<and> m_DicomContents (snd (LoadImage io st filename)) = m_DicomContents st
      \<and> m_SelectedFormat (snd (LoadImage io st filename)) = m_SelectedFormat st
      \<and> m_Warnings (snd (LoadImage io st filename))
          = m_Warnings st @ produced_warnings io (m_Mode st) filename)
   \<and> (fst (LoadImage io (Reset st) filename) = Inl e \<longrightarrow>
      \<not> IsImageLoaded (snd (LoadImage io (Reset st) filename))
      \<and> m_Warnings (snd (LoadImage io (Reset st) filename))
          = produced_warnings io (m_Mode st) filename)"
proof (intro conjI impI)
  assume failed: "fst (LoadImage io st filename) = Inl e"
  then have frame:
    "m_LoadedImage (snd (LoadImage io st filename)) = m_LoadedImage st
     \<and> m_Mode (snd (LoadImage io st filename)) = m_Mode st
     \<and> m_DicomContents (snd (LoadImage io st filename)) = m_DicomContents st
     \<and> m_SelectedFormat (snd (LoadImage io st filename)) = m_SelectedFormat st"
    unfolding LoadImage_def by (rule load_pipeline_failure_frame)
  from frame show "m_LoadedImage (snd (LoadImage io st filename)) = m_LoadedImage st"
    by simp
  from frame show "IsImageLoaded (snd (LoadImage io st filename)) = IsImageLoaded st"
    by (simp add: IsImageLoaded_def)
  from frame show "m_Mode (snd (LoadImage io st filename)) = m_Mode st"
    by simp
  from frame show "m_DicomContents (snd (LoadImage io st filename)) = m_DicomContents st"
    by simp
  from frame show "m_SelectedFormat (snd (LoadImage io st filename)) = m_SelectedFormat st"
    by simp
  show "m_Warnings (snd (LoadImage io st filename))
      = m_Warnings st @ produced_warnings io (m_Mode st) filename"
    by (rule LoadImage_warnings)
next
  assume failed: "fst (LoadImage io (Reset st) filename) = Inl e"
  then have "m_LoadedImage (snd (LoadImage io (Reset st) filename)) = m_LoadedImage (Reset st)"
    unfolding LoadImage_def by (simp add: load_pipeline_failure_frame)
  then show "\<not> IsImageLoaded (snd (LoadImage io (Reset st) filename))"
    by (simp add: IsImageLoaded_def Reset_fields)
  show "m_Warnings (snd (LoadImage io (Reset st) filename))
      = produced_warnings io (m_Mode st) filename"
    by (simp add: LoadImage_warnings Reset_fields)
qed

theorem LoadImage_failure_keeps_state_witness:
  "fst (LoadImage example_io example_model ''scan.nii'') = Inl (DecodeError ''cannot read'')
   \<and> m_LoadedImage (snd (LoadImage example_io example_model ''scan.nii'')) = Some 7
   \<and> fst (LoadImage example_io (Reset example_model) ''scan.nii'')
       = Inl (DecodeError ''cannot read'')
   \<and> \<not> IsImageLoaded (snd (LoadImage example_io (Reset example_model) ''scan.nii''))"
proof -
  have one: "fst (LoadImage example_io example_model ''scan.nii'')
      = Inl (DecodeError ''cannot read'')"
    by (simp add: LoadImage_def load_pipeline_def example_io_def)
  have two: "fst (LoadImage example_io (Reset example_model) ''scan.nii'')
      = Inl (DecodeError ''cannot read'')"
    by (simp add: LoadImage_def load_pipeline_def example_io_def)
  have loaded: "m_LoadedImage example_model = Some 7"
    by (simp add: example_model_def)
  from LoadImage_failure_keeps_state
    [of example_io example_model "''scan.nii''" "DecodeError ''cannot read''"]
    one two loaded
  show ?thesis by simp
qed

text \<open>
  C4 as the specification states it, for every model state, fails where a prior load
  had completed: the failed \<^verbatim>\<open>LoadImage\<close> leaves the handle of that load in place,
  and \<^verbatim>\<open>IsImageLoaded()\<close> is true afterwards.
\<close>

theorem LoadImage_failure_still_loaded_counterexample:
  "fst (LoadImage example_io example_model ''scan.nii'') = Inl (DecodeError ''cannot read'')
   \<and> IsImageLoaded (snd (LoadImage example_io example_model ''scan.nii''))"
  by (simp add: LoadImage_def load_pipeline_def example_io_def example_model_def
      IsImageLoaded_def)

text \<open>
  C5: in load mode, for a path that does not exist on disk, \<^verbatim>\<open>GuessFileFormat\<close>
  returns \<^verbatim>\<open>FORMAT_COUNT\<close> (format not determined) with \<open>fileExists\<close> false; the
  function has no failing outcome.
\<close>

theorem GuessFileFormat_missing_file_in_load_mode:
  "\<not> FileExists io fname \<Longrightarrow> GuessFileFormat io LOAD fname = (FORMAT_COUNT, False)"
  by (simp add: GuessFileFormat_def)

theorem GuessFileFormat_missing_file_in_load_mode_witness:
  "\<not> FileExists example_io ''gone.nii''
   \<and> GuessFileFormat example_io LOAD ''gone.nii'' = (FORMAT_COUNT, False)"
proof -
  have missing: "\<not> FileExists example_io ''gone.nii''"
    by (simp add: example_io_def)
  from GuessFileFormat_missing_file_in_load_mode [OF missing] missing
  show ?thesis by simp
qed

text \<open>
  C6, amended: in save mode, and in load mode when the file exists, a path with a
  hint gets the hinted format, whatever the magic number and the extension say:
  past the load-mode existence test the hint is the first step and the first match
  wins. The magic number is consulted in load mode only and only when the file
  exists (otherwise the result does not depend on it), and there it wins over the
  extension; the extension comes last before the save-mode default.
\<close>

theorem GuessFileFormat_hint_first:
  "(((mode = SAVE \<or> FileExists io fname) \<and> Hint io fname = Some fmt) \<longrightarrow>
      GuessFileFormat io mode fname = (FORMAT fmt, FileExists io fname))
   \<and> ((mode = SAVE \<or> \<not> FileExists io fname) \<longrightarrow>
      GuessFileFormat (io\<lparr>SniffMagicNumber := sniff\<rparr>) mode fname
        = GuessFileFormat io mode fname)
   \<and> ((mode = LOAD \<and> FileExists io fname \<and> Hint io fname = None
        \<and> SniffMagicNumber io fname = FORMAT fmt) \<longrightarrow>
      GuessFileFormat io mode fname = (FORMAT fmt, True))
   \<and> (((mode = SAVE \<or> (FileExists io fname \<and> SniffMagicNumber io fname = FORMAT_COUNT))
        \<and> Hint io fname = None \<and> MatchExtension io fname = FORMAT fmt) \<longrightarrow>
      GuessFileFormat io mode fname = (FORMAT fmt, FileExists io fname))
   \<and> ((mode = SAVE \<and> Hint io fname = None \<and> MatchExtension io fname = FORMAT_COUNT) \<longrightarrow>
      GuessFileFormat io mode fname = (SaveDefault io, FileExists io fname))"
  by (cases mode) (auto simp: GuessFileFormat_def Let_def split: option.splits FileFormat.splits)

theorem GuessFileFormat_hint_first_witness:
  "FileExists example_io ''scan.nii''
   \<and> Hint example_io ''scan.nii'' = Some DICOM
   \<and> MatchExtension example_io ''scan.nii'' = FORMAT NIFTI
   \<and> GuessFileFormat example_io LOAD ''scan.nii'' = (FORMAT DICOM, True)"
proof -
  have there: "FileExists example_io ''scan.nii''"
    by (simp add: example_io_def)
  have hinted: "Hint example_io ''scan.nii'' = Some DICOM"
    by (simp add: example_io_def)
  have ext: "MatchExtension example_io ''scan.nii'' = FORMAT NIFTI"
    by (simp add: example_io_def)
  from GuessFileFormat_hint_first [of LOAD example_io "''scan.nii''" DICOM] there hinted ext
  show ?thesis by simp
qed

text \<open>
  C6 as the specification states it, for every hinted path, fails in load mode for a
  hinted path that is not on disk: the result is \<^verbatim>\<open>FORMAT_COUNT\<close>, not the hint.
\<close>

theorem GuessFileFormat_hint_missing_file_counterexample:
  "Hint example_io ''gone.nii'' = Some DICOM
   \<and> fst (GuessFileFormat example_io LOAD ''gone.nii'') \<noteq> FORMAT DICOM"
  by (simp add: GuessFileFormat_def example_io_def)

text \<open>
  C7: with \<open>series_count\<close> the number of enumerated DICOM series,
  \<^verbatim>\<open>LoadDicomSeries(path, index)\<close> fails with \<open>IndexOutOfRange\<close>, leaving the model as
  it was, whenever \<open>index < 0\<close> or \<open>index \<ge> series_count\<close>; for \<open>0 \<le> index < series_count\<close>
  it hands the series of that index to the service and its outcome to the load
  pipeline, and does not fail with \<open>IndexOutOfRange\<close>; it succeeds only for an index
  in range.
\<close>

theorem LoadDicomSeries_index_range:
  "((series < 0 \<or> int (length (m_DicomContents st)) \<le> series) \<longrightarrow>
      LoadDicomSeries io st filename series = (Inl IndexOutOfRange, st))
   \<and> ((0 \<le> series \<and> series < int (length (m_DicomContents st))) \<longrightarrow>
      LoadDicomSeries io st filename series
        = load_pipeline io st (MaterializeSeries io (m_DicomContents st ! nat series))
      \<and> fst (LoadDicomSeries io st filename series) \<noteq> Inl IndexOutOfRange)
   \<and> (fst (LoadDicomSeries io st filename series) = Inr () \<longrightarrow>
        0 \<le> series \<and> series < int (length (m_DicomContents st)))"
  by (auto simp: LoadDicomSeries_def load_pipeline_never_IndexOutOfRange)

theorem LoadDicomSeries_index_range_witness:
  "int (length (m_DicomContents example_model)) = 2
   \<and> LoadDicomSeries example_io example_model ''dicomdir'' 2
       = (Inl IndexOutOfRange, example_model)
   \<and> LoadDicomSeries example_io example_model ''dicomdir'' (- 1)
       = (Inl IndexOutOfRange, example_model)
   \<and> fst (LoadDicomSeries example_io example_model ''dicomdir'' 1) = Inr ()"
proof -
  have count: "int (length (m_DicomContents example_model)) = 2"
    by (simp add: example_model_def)
  have second: "m_DicomContents example_model ! nat 1 = 1"
    by (simp add: example_model_def)
  have ok: "fst (load_pipeline example_io example_model (MaterializeSeries example_io 1))
      = Inr ()"
    by (simp add: load_pipeline_def example_io_def)
  from LoadDicomSeries_index_range [of 2 example_model example_io "''dicomdir''"]
    LoadDicomSeries_index_range [of "- 1" example_model example_io "''dicomdir''"]
    LoadDicomSeries_index_range [of 1 example_model example_io "''dicomdir''"]
    count second ok
  show ?thesis by simp
qed

end
